theory Spec2Isabelle
  imports Main "HOL-Library.Word"
begin

unbundle bit_operations_syntax

section \<open>Data model of LapTimer.c\<close>

text \<open>
  \<^verbatim>\<open>time_type\<close>: three \<^verbatim>\<open>volatile uint8_t\<close> fields. The field \<^verbatim>\<open>min\<close> of the source is
  \<open>min_t\<close> here, because \<open>min\<close> is the minimum of HOL.
\<close>

record time_type =
  min_t :: "8 word"
  sec :: "8 word"
  hSec :: "8 word"

text \<open>
  \<^verbatim>\<open>runner_type\<close>: the field \<^verbatim>\<open>id\<close> of the source is \<open>id_r\<close> here (\<open>id\<close> is the identity
  of HOL). \<open>running\<close> is the source's \<^verbatim>\<open>uint8_t\<close> used as a boolean: zero is false, every
  other value is true.
\<close>

record runner_type =
  id_r :: "8 word"
  running :: "8 word"
  time :: time_type

section \<open>The heap of list nodes\<close>

text \<open>
  \<^verbatim>\<open>runner_node\<close>: a node of the doubly linked list. Pointers are addresses; \<open>NULL\<close> is the
  address 0. The heap maps the address of every allocated node to its contents; an address
  outside its domain is not allocated (never allocated, or freed). The field \<^verbatim>\<open>prev\<close> is
  written by \<^verbatim>\<open>addRunner\<close> and read nowhere in the source.
\<close>

type_synonym addr = nat

abbreviation NULL :: addr where
  "NULL \<equiv> 0"

record runner_node =
  runner :: runner_type
  prev :: addr
  "next" :: addr

text \<open>
  What C leaves undefined is a fault of the model: \<open>BadPointer\<close> is the dereference of a
  pointer that is \<open>NULL\<close> or not allocated, \<open>OutOfBounds\<close> the access of an array element
  outside the array. A loop that does not end has the value \<open>None\<close>.
\<close>

datatype fault = BadPointer | OutOfBounds

text \<open>Sequencing: a fault or a loop without end stops what follows.\<close>

definition bindR ::
    "(fault + 'a) option \<Rightarrow> ('a \<Rightarrow> (fault + 'b) option) \<Rightarrow> (fault + 'b) option" where
  "bindR m f =
     (case m of None \<Rightarrow> None | Some (Inl e) \<Rightarrow> Some (Inl e) | Some (Inr x) \<Rightarrow> f x)"

text \<open>
  The globals of the program (\<open>clock\<close>, \<open>runnerListHead\<close>), the \<^verbatim>\<open>static\<close> locals
  (\<open>addRunner_prev\<close> is \<^verbatim>\<open>prev\<close> of \<^verbatim>\<open>addRunner\<close>; \<open>clockRunning\<close> and \<open>currentRunner\<close>
  are those of \<^verbatim>\<open>inputController\<close>), the hardware registers the functions below read or
  write, and the heap. \<open>brk\<close> is the address the next allocation returns and \<open>stale\<close> gives the contents a
  block is found to hold when it is allocated: \<^verbatim>\<open>malloc\<close> does not initialise memory.
\<close>

record state =
  heap :: "addr \<rightharpoonup> runner_node"
  brk :: addr
  stale :: "addr \<Rightarrow> runner_node"
  clock :: time_type
  runnerListHead :: addr
  addRunner_prev :: addr
  clockRunning :: "8 word"
  currentRunner :: runner_type
  TCCR1B :: "8 word"
  TCNT1 :: "16 word"
  PIND :: "8 word"
  PINE :: "8 word"
  PORTA :: "8 word"

text \<open>
  \<^verbatim>\<open>malloc(sizeof(runner_node))\<close>: a new block at a new address, with stale contents.
  Allocation is taken to succeed; no caller in the source tests the result.
\<close>

definition malloc :: "state \<Rightarrow> addr \<times> state" where
  "malloc s = (brk s, s\<lparr>heap := (heap s)(brk s \<mapsto> stale s (brk s)), brk := Suc (brk s)\<rparr>)"

text \<open>
  The abstraction used to state properties: \<open>runner_list h p rs\<close> holds when the nodes
  reached from \<open>p\<close> along \<^verbatim>\<open>next\<close>, up to \<open>NULL\<close>, are allocated and hold the runners \<open>rs\<close>
  in this order. It is what a traversal \<^verbatim>\<open>while (current != NULL)\<close> of the source visits.
\<close>

fun runner_list :: "(addr \<rightharpoonup> runner_node) \<Rightarrow> addr \<Rightarrow> runner_type list \<Rightarrow> bool" where
  "runner_list h p [] = (p = NULL)"
| "runner_list h p (r # rs) =
     (p \<noteq> NULL \<and>
      (case h p of None \<Rightarrow> False | Some nd \<Rightarrow> runner nd = r \<and> runner_list h (next nd) rs))"

text \<open>
  The same with the addresses: \<open>node_path h p as\<close> holds when \<open>as\<close> are the addresses of
  the nodes reached from \<open>p\<close>, in this order.
\<close>

fun node_path :: "(addr \<rightharpoonup> runner_node) \<Rightarrow> addr \<Rightarrow> addr list \<Rightarrow> bool" where
  "node_path h p [] = (p = NULL)"
| "node_path h p (a # as) =
     (p = a \<and> a \<noteq> NULL \<and>
      (case h a of None \<Rightarrow> False | Some nd \<Rightarrow> node_path h (next nd) as))"

section \<open>The clock\<close>

text \<open>
  \<^verbatim>\<open>incClock(time_type *time_p)\<close>, lines 114 to 125. The parameter \<open>tcnt1\<close> is the value
  read from the 16-bit hardware counter \<^verbatim>\<open>TCNT1\<close>; the assignment to the \<^verbatim>\<open>uint8_t\<close> field
  keeps its low byte.
\<close>

definition incClock :: "time_type \<Rightarrow> 16 word \<Rightarrow> time_type" where
  "incClock time_p tcnt1 =
     (let t1 = (if sec time_p < 59
                then time_p\<lparr>sec := sec time_p + 1\<rparr>
                else time_p\<lparr>sec := 0, min_t := min_t time_p + 1\<rparr>)
      in t1\<lparr>hSec := ucast tcnt1\<rparr>)"

text \<open>
  A sequence of ticks: the interrupt handler runs \<^verbatim>\<open>incClock(&clock)\<close> once per tick; the
  list holds the counter value the hardware shows at each tick.
\<close>

fun ticks :: "time_type \<Rightarrow> 16 word list \<Rightarrow> time_type" where
  "ticks c [] = c"
| "ticks c (v # vs) = ticks (incClock c v) vs"

text \<open>
  The interrupt service routine of timer 1, lines 54 to 57: \<^verbatim>\<open>incClock(&clock)\<close>.
\<close>

definition ISR_TIMER1_COMPA :: "state \<Rightarrow> state" where
  "ISR_TIMER1_COMPA s = s\<lparr>clock := incClock (clock s) (TCNT1 s)\<rparr>"

text \<open>
  \<^verbatim>\<open>stopTimer\<close> and \<^verbatim>\<open>startTimer\<close>, lines 91 to 104: clear and set the prescaler bits
  \<^verbatim>\<open>CS10\<close> and \<^verbatim>\<open>CS11\<close> of \<^verbatim>\<open>TCCR1B\<close>, the mask \<^verbatim>\<open>0000 0001 OR 0000 0010\<close> of the source's
  comments.
\<close>

definition stopTimer :: "state \<Rightarrow> state" where
  "stopTimer s = s\<lparr>TCCR1B := TCCR1B s AND NOT (push_bit 0 1 OR push_bit 1 1)\<rparr>"

definition startTimer :: "state \<Rightarrow> state" where
  "startTimer s = s\<lparr>TCCR1B := TCCR1B s OR (push_bit 0 1 OR push_bit 1 1)\<rparr>"

section \<open>The time key\<close>

text \<open>
  \<^verbatim>\<open>getTimeInSec(runner_type runner)\<close>, lines 381 to 384. The operands are promoted to
  \<^verbatim>\<open>int\<close>, where \<^verbatim>\<open>min * 60 + sec\<close> is at most 15555 and cannot overflow; the return type
  \<^verbatim>\<open>uint8_t\<close> keeps the low byte of the result.
\<close>

definition getTimeInSec :: "runner_type \<Rightarrow> 8 word" where
  "getTimeInSec r =
     word_of_int (uint (min_t (time r)) * 60 + uint (sec (time r)))"

section \<open>The registry\<close>

text \<open>
  \<^verbatim>\<open>addRunner\<close>, lines 136 to 153. First the loop
  \<^verbatim>\<open>while (current -> next != NULL) current = current -> next;\<close>
\<close>

partial_function (option) addRunner_last ::
    "(addr \<rightharpoonup> runner_node) \<Rightarrow> addr \<Rightarrow> (fault + addr) option" where
  "addRunner_last h current =
     (case h current of
        None \<Rightarrow> Some (Inl BadPointer)
      | Some nd \<Rightarrow>
          if next nd \<noteq> NULL then addRunner_last h (next nd) else Some (Inr current))"

text \<open>
  Then the four assignments through \<^verbatim>\<open>current\<close>, in the order of the source: the new block
  is stored in \<^verbatim>\<open>current -> next\<close>, the runner and \<^verbatim>\<open>prev\<close> are written to \<^verbatim>\<open>current\<close> itself,
  and \<^verbatim>\<open>current -> next = NULL\<close> overwrites the pointer to the new block. The result is
  \<^verbatim>\<open>current\<close>.
\<close>

definition addRunner :: "state \<Rightarrow> addr \<Rightarrow> runner_type \<Rightarrow> (fault + addr \<times> state) option" where
  "addRunner s head r =
     bindR (addRunner_last (heap s) head) (\<lambda>current.
       let (a, s1) = malloc s in
       case heap s1 current of
         None \<Rightarrow> Some (Inl BadPointer)
       | Some nd \<Rightarrow>
           let nd1 = nd\<lparr>next := a\<rparr>;
               nd2 = nd1\<lparr>runner := r\<rparr>;
               nd3 = nd2\<lparr>prev := addRunner_prev s1\<rparr>;
               nd4 = nd3\<lparr>next := NULL\<rparr>
           in Some (Inr (current,
                s1\<lparr>heap := (heap s1)(current \<mapsto> nd4), addRunner_prev := current\<rparr>)))"

text \<open>
  \<^verbatim>\<open>freeRunnerList\<close>, lines 326 to 336: every node from \<^verbatim>\<open>head\<close> on is freed, after its
  \<^verbatim>\<open>next\<close> has been read.
\<close>

partial_function (option) freeRunnerList ::
    "(addr \<rightharpoonup> runner_node) \<Rightarrow> addr \<Rightarrow> (fault + (addr \<rightharpoonup> runner_node)) option" where
  "freeRunnerList h current =
     (if current \<noteq> NULL then
        (case h current of
           None \<Rightarrow> Some (Inl BadPointer)
         | Some nd \<Rightarrow> freeRunnerList (h(current := None)) (next nd))
      else Some (Inr h))"

section \<open>The average lap time\<close>

text \<open>
  \<^verbatim>\<open>averageLapTime\<close>, lines 228 to 259. The loop over the list, with the counter
  \<^verbatim>\<open>runners\<close> and the three sums of \<^verbatim>\<open>total\<close>, all of them \<^verbatim>\<open>uint8_t\<close>.
\<close>

partial_function (option) averageLapTime_loop ::
    "(addr \<rightharpoonup> runner_node) \<Rightarrow> addr \<Rightarrow> 8 word \<Rightarrow> time_type \<Rightarrow>
     (fault + 8 word \<times> time_type) option" where
  "averageLapTime_loop h current runners total_t =
     (if current \<noteq> NULL then
        (case h current of
           None \<Rightarrow> Some (Inl BadPointer)
         | Some nd \<Rightarrow>
             if running (runner nd) = 0 then
               averageLapTime_loop h (next nd) (runners + 1)
                 (total_t\<lparr>min_t := min_t total_t + min_t (time (runner nd)),
                        sec := sec total_t + sec (time (runner nd)),
                        hSec := hSec total_t + hSec (time (runner nd))\<rparr>)
             else averageLapTime_loop h (next nd) runners total_t)
      else Some (Inr (runners, total_t)))"

text \<open>
  The local \<^verbatim>\<open>averageTime\<close> is declared without an initialiser and assigned only inside
  \<^verbatim>\<open>if (runners > 1)\<close>; the parameter \<open>averageTime\<close> is the value the variable happens to
  hold at its declaration; \<open>total_t\<close> is the local \<^verbatim>\<open>total\<close> (\<open>total\<close> is a constant of
  HOL). \<^verbatim>\<open>tempSec\<close> keeps the low byte of \<^verbatim>\<open>total.min * 60 + total.sec\<close>, which is computed
  in \<^verbatim>\<open>int\<close>.
\<close>

definition averageLapTime :: "state \<Rightarrow> time_type \<Rightarrow> (fault + time_type) option" where
  "averageLapTime s averageTime =
     bindR (averageLapTime_loop (heap s) (runnerListHead s) 0 \<lparr>min_t = 0, sec = 0, hSec = 0\<rparr>)
       (\<lambda>(runners, total_t).
          if runners > 1 then
            let tempSec =
                  (word_of_int (uint (min_t total_t) * 60 + uint (sec total_t)) :: 8 word);
                averSec = tempSec div runners
            in Some (Inr (averageTime\<lparr>min_t := averSec div 60,
                                      sec := averSec mod 60,
                                      hSec := hSec total_t div runners\<rparr>))
          else Some (Inr averageTime))"

section \<open>Sorting\<close>

text \<open>
  An element of the local array \<^verbatim>\<open>sortingArray\<close>, at an index computed in \<^verbatim>\<open>int\<close>.
\<close>

definition arr_get :: "'a list \<Rightarrow> int \<Rightarrow> fault + 'a" where
  "arr_get arr k =
     (if 0 \<le> k \<and> k < int (length arr) then Inr (arr ! nat k) else Inl OutOfBounds)"

text \<open>
  \<^verbatim>\<open>sortedByTime\<close>, lines 269 to 318. The counting loop, with the \<^verbatim>\<open>uint8_t\<close> counter
  \<^verbatim>\<open>listSize\<close>.
\<close>

partial_function (option) sortedByTime_count ::
    "(addr \<rightharpoonup> runner_node) \<Rightarrow> addr \<Rightarrow> 8 word \<Rightarrow> (fault + 8 word) option" where
  "sortedByTime_count h current listSize =
     (if current \<noteq> NULL then
        (case h current of
           None \<Rightarrow> Some (Inl BadPointer)
         | Some nd \<Rightarrow> sortedByTime_count h (next nd) (listSize + 1))
      else Some (Inr listSize))"

text \<open>
  The copying loop \<^verbatim>\<open>for (uint8_t i = 0; i < listSize; i++)\<close>. The array has \<^verbatim>\<open>listSize\<close>
  elements and the loop writes them from index 0 upwards, each once; the model builds the
  array in this order.
\<close>

partial_function (option) sortedByTime_copy ::
    "(addr \<rightharpoonup> runner_node) \<Rightarrow> addr \<Rightarrow> 8 word \<Rightarrow> 8 word \<Rightarrow> runner_type list \<Rightarrow>
     (fault + runner_type list) option" where
  "sortedByTime_copy h tempNode listSize i sortingArray =
     (if i < listSize then
        (case h tempNode of
           None \<Rightarrow> Some (Inl BadPointer)
         | Some nd \<Rightarrow> sortedByTime_copy h (next nd) listSize (i + 1) (sortingArray @ [runner nd]))
      else Some (Inr sortingArray))"

text \<open>
  The inner loop \<^verbatim>\<open>for (uint8_t j = 1; j <= i; j++)\<close>: \<^verbatim>\<open>sortingArray[j]\<close> is read first,
  then \<^verbatim>\<open>sortingArray[j - 1]\<close>, whose index is computed in \<^verbatim>\<open>int\<close>; the two are swapped when
  \<^verbatim>\<open>time2 > time1\<close>.
\<close>

partial_function (option) sortedByTime_inner ::
    "8 word \<Rightarrow> 8 word \<Rightarrow> runner_type list \<Rightarrow> (fault + runner_type list) option" where
  "sortedByTime_inner i j sortingArray =
     (if j \<le> i then
        (case arr_get sortingArray (uint j) of
           Inl e \<Rightarrow> Some (Inl e)
         | Inr rj \<Rightarrow>
             (case arr_get sortingArray (uint j - 1) of
                Inl e \<Rightarrow> Some (Inl e)
              | Inr rj1 \<Rightarrow>
                  let time1 = getTimeInSec rj;
                      time2 = getTimeInSec rj1
                  in sortedByTime_inner i (j + 1)
                       (if time2 > time1
                        then sortingArray[nat (uint j - 1) := rj, nat (uint j) := rj1]
                        else sortingArray)))
      else Some (Inr sortingArray))"

text \<open>
  The outer loop \<^verbatim>\<open>for (uint8_t i = listSize - 1; i >= 0; i--)\<close>. Its test compares the
  value of the \<^verbatim>\<open>uint8_t\<close> variable \<^verbatim>\<open>i\<close>, promoted to \<^verbatim>\<open>int\<close>, with 0; \<^verbatim>\<open>i--\<close> wraps from 0
  to 255.
\<close>

partial_function (option) sortedByTime_outer ::
    "8 word \<Rightarrow> runner_type list \<Rightarrow> (fault + runner_type list) option" where
  "sortedByTime_outer i sortingArray =
     (if 0 \<le> uint i then
        (case sortedByTime_inner i 1 sortingArray of
           None \<Rightarrow> None
         | Some (Inl e) \<Rightarrow> Some (Inl e)
         | Some (Inr sortingArray') \<Rightarrow> sortedByTime_outer (i - 1) sortingArray')
      else Some (Inr sortingArray))"

text \<open>
  The last loop \<^verbatim>\<open>for (uint8_t i = 0; i < listSize; i++)\<close> calls \<^verbatim>\<open>addRunner\<close> on the new
  head for every element of the array.
\<close>

partial_function (option) sortedByTime_rebuild ::
    "state \<Rightarrow> addr \<Rightarrow> runner_type list \<Rightarrow> 8 word \<Rightarrow> 8 word \<Rightarrow> (fault + state) option" where
  "sortedByTime_rebuild s sortedHead sortingArray listSize i =
     (if i < listSize then
        (case arr_get sortingArray (uint i) of
           Inl e \<Rightarrow> Some (Inl e)
         | Inr r \<Rightarrow>
             (case addRunner s sortedHead r of
                None \<Rightarrow> None
              | Some (Inl e) \<Rightarrow> Some (Inl e)
              | Some (Inr (current, s')) \<Rightarrow>
                  sortedByTime_rebuild s' sortedHead sortingArray listSize (i + 1)))
      else Some (Inr s))"

text \<open>
  The whole function. The result is the new head and the state. The final
  \<^verbatim>\<open>free(sortingArray)\<close> of the source is applied to the local array, which is no block of the
  heap of nodes; the model leaves the heap as it is there.
\<close>

definition sortedByTime :: "state \<Rightarrow> addr \<Rightarrow> (fault + addr \<times> state) option" where
  "sortedByTime s head =
     bindR (sortedByTime_count (heap s) head 0) (\<lambda>listSize.
     bindR (sortedByTime_copy (heap s) head listSize 0 []) (\<lambda>sortingArray.
     bindR (freeRunnerList (heap s) head) (\<lambda>h'.
     bindR (sortedByTime_outer (listSize - 1) sortingArray) (\<lambda>sortingArray'.
       let (sortedHead, s1) = malloc (s\<lparr>heap := h'\<rparr>) in
       bindR (sortedByTime_rebuild s1 sortedHead sortingArray' listSize 0) (\<lambda>s2.
         Some (Inr (sortedHead, s2)))))))"

section \<open>The controller\<close>

text \<open>
  \<^verbatim>\<open>inputController\<close>, lines 160 to 219. The second block, lines 188 to 218: the runner
  signal is bit 4 of \<^verbatim>\<open>PIND\<close>. The counter \<^verbatim>\<open>TCNT1\<close> has 16 bits; the \<^verbatim>\<open>uint8_t\<close> field keeps
  the low byte of what is assigned to it.
\<close>

definition inputController_runner :: "state \<Rightarrow> (fault + state) option" where
  "inputController_runner s =
     (if PIND s AND push_bit 4 1 \<noteq> 0 \<and> clockRunning s \<noteq> 0 then
        if running (currentRunner s) \<noteq> 0 then
          let lapTime = \<lparr>min_t = min_t (clock s) - min_t (time (currentRunner s)),
                         sec = sec (clock s) - sec (time (currentRunner s)),
                         hSec = ucast (TCNT1 s - ucast (hSec (time (currentRunner s))))\<rparr>
          in Some (Inr (s\<lparr>currentRunner := (currentRunner s)\<lparr>time := lapTime, running := 0\<rparr>\<rparr>))
        else
          let c1 = (currentRunner s)\<lparr>running := 1, id_r := PINE s\<rparr>;
              c2 = c1\<lparr>time := clock s\<rparr>;
              c3 = c2\<lparr>time := (time c2)\<lparr>hSec := ucast (TCNT1 s)\<rparr>\<rparr>;
              s1 = s\<lparr>currentRunner := c3\<rparr>
          in bindR (addRunner s1 (runnerListHead s1) (currentRunner s1)) (\<lambda>(current, s2).
               Some (Inr s2))
      else Some (Inr s))"

text \<open>
  The first block, lines 169 to 185: the clock signal is bit 0 of \<^verbatim>\<open>PIND\<close>. When the clock
  is running, the function stops it, calls \<^verbatim>\<open>averageLapTime\<close> and \<^verbatim>\<open>sortedByTime\<close>, keeps both
  results in locals and returns. \<open>averageTime\<close> is the indeterminate initial value of the
  local of \<^verbatim>\<open>averageLapTime\<close>.
\<close>

definition inputController :: "state \<Rightarrow> time_type \<Rightarrow> (fault + state) option" where
  "inputController s averageTime =
     (if PIND s AND 1 \<noteq> 0 then
        if clockRunning s \<noteq> 0 then
          let s1 = stopTimer (s\<lparr>clockRunning := 0\<rparr>) in
          bindR (averageLapTime s1 averageTime) (\<lambda>averageTime'.
          bindR (sortedByTime s1 (runnerListHead s1)) (\<lambda>(sortedListHead, s2).
            Some (Inr s2)))
        else inputController_runner ((startTimer s)\<lparr>clockRunning := 1\<rparr>)
      else inputController_runner s)"

section \<open>Reporting the best runner\<close>

text \<open>
  \<^verbatim>\<open>outputBest\<close>, lines 343 to 371. The loop carries \<^verbatim>\<open>bestTimeID\<close> and \<^verbatim>\<open>bestTimeSec\<close> and
  leaves at the first node whose runner is running.
\<close>

partial_function (option) outputBest_loop ::
    "(addr \<rightharpoonup> runner_node) \<Rightarrow> addr \<Rightarrow> 8 word \<Rightarrow> 8 word \<Rightarrow> (fault + 8 word) option" where
  "outputBest_loop h current bestTimeID bestTimeSec =
     (if current \<noteq> NULL then
        (case h current of
           None \<Rightarrow> Some (Inl BadPointer)
         | Some nd \<Rightarrow>
             if running (runner nd) \<noteq> 0 then Some (Inr bestTimeID)
             else
               let timeInSec = getTimeInSec (runner nd) in
               if bestTimeSec > timeInSec
               then outputBest_loop h (next nd) (id_r (runner nd)) timeInSec
               else outputBest_loop h (next nd) bestTimeID bestTimeSec)
      else Some (Inr bestTimeID))"

definition outputBest :: "state \<Rightarrow> (fault + state) option" where
  "outputBest s =
     (if runnerListHead s \<noteq> NULL then
        (case heap s (runnerListHead s) of
           None \<Rightarrow> Some (Inl BadPointer)
         | Some nd \<Rightarrow>
             let bestTimeID = id_r (runner nd);
                 bestTimeSec = getTimeInSec (runner nd)
             in bindR (outputBest_loop (heap s) (runnerListHead s) bestTimeID bestTimeSec)
                  (\<lambda>bestTimeID'. Some (Inr (s\<lparr>PORTA := bestTimeID'\<rparr>))))
      else Some (Inr s))"

section \<open>Start of the program\<close>

text \<open>
  \<^verbatim>\<open>main\<close>, lines 386 to 399, up to its endless loop: \<^verbatim>\<open>initTimer\<close> sets \<^verbatim>\<open>TCCR1B\<close> to
  \<^verbatim>\<open>1 << WGM12\<close> (bit 3) and \<^verbatim>\<open>TCNT1\<close> to 0, and the head of the list is allocated. The
  registers that no function above reads (\<^verbatim>\<open>OCR1A\<close>, \<^verbatim>\<open>TIMSK\<close>, the direction registers)
  are not part of the state. One round of the loop is \<open>main_round\<close>.
\<close>

definition initTimer :: "state \<Rightarrow> state" where
  "initTimer s = s\<lparr>TCCR1B := push_bit 3 1, TCNT1 := 0\<rparr>"

definition main_start :: "state \<Rightarrow> state" where
  "main_start s = (let (a, s1) = malloc (initTimer s) in s1\<lparr>runnerListHead := a\<rparr>)"

definition main_round :: "state \<Rightarrow> time_type \<Rightarrow> (fault + state) option" where
  "main_round s averageTime = bindR (inputController s averageTime) outputBest"

section \<open>Sequences of calls, and the words of the specification\<close>

text \<open>
  \<^verbatim>\<open>inputController\<close> calls \<^verbatim>\<open>addRunner(runnerListHead, currentRunner)\<close> at every start of a
  runner; \<open>addRunners\<close> is this call for a sequence of runners, in their order of arrival.
\<close>

fun addRunners :: "state \<Rightarrow> runner_type list \<Rightarrow> (fault + state) option" where
  "addRunners s [] = Some (Inr s)"
| "addRunners s (r # rs) =
     bindR (addRunner s (runnerListHead s) r) (\<lambda>(current, s'). addRunners s' rs)"

text \<open>
  The finished runners of a list, and the lap time of a runner in whole seconds as a
  natural number, \<open>minutes * 60 + seconds\<close> without any reduction.
\<close>

definition finished :: "runner_type list \<Rightarrow> runner_type list" where
  "finished rs = filter (\<lambda>r. running r = 0) rs"

definition lap_seconds :: "runner_type \<Rightarrow> nat" where
  "lap_seconds r = unat (min_t (time r)) * 60 + unat (sec (time r))"

definition sub_seconds :: "runner_type \<Rightarrow> nat" where
  "sub_seconds r = unat (hSec (time r))"

text \<open>
  The average as the specification words it: the sum of the lap seconds of the finished
  runners divided by their number, decomposed into minutes and seconds, and the average of
  their sub-second fields, all in truncating division on unbounded numbers.
\<close>

definition spec_average :: "runner_type list \<Rightarrow> nat \<times> nat \<times> nat" where
  "spec_average rs =
     (let fin = finished rs;
          n = length fin;
          avg = sum_list (map lap_seconds fin) div n
      in (avg div 60, avg mod 60, sum_list (map sub_seconds fin) div n))"

section \<open>Concrete states\<close>

text \<open>
  The state at power-up with all memory zero, and states that differ from it in the
  registry and the signals. \<open>node r p\<close> is a list node holding \<open>r\<close>, followed by the node
  at \<open>p\<close>.
\<close>

definition zero_node :: runner_node where
  "zero_node =
     \<lparr>runner = \<lparr>id_r = 0, running = 0, time = \<lparr>min_t = 0, sec = 0, hSec = 0\<rparr>\<rparr>,
      prev = NULL, next = NULL\<rparr>"

definition boot_state :: state where
  "boot_state =
     \<lparr>heap = Map.empty, brk = 1, stale = (\<lambda>a. zero_node),
      clock = \<lparr>min_t = 0, sec = 0, hSec = 0\<rparr>,
      runnerListHead = NULL, addRunner_prev = NULL, clockRunning = 0,
      currentRunner = \<lparr>id_r = 0, running = 0, time = \<lparr>min_t = 0, sec = 0, hSec = 0\<rparr>\<rparr>,
      TCCR1B = 0, TCNT1 = 0, PIND = 0, PINE = 0, PORTA = 0\<rparr>"

definition node :: "runner_type \<Rightarrow> addr \<Rightarrow> runner_node" where
  "node r p = \<lparr>runner = r, prev = NULL, next = p\<rparr>"

definition lap :: "8 word \<Rightarrow> 8 word \<Rightarrow> 8 word \<Rightarrow> 8 word \<Rightarrow> 8 word \<Rightarrow> runner_type" where
  "lap i ru m sc h = \<lparr>id_r = i, running = ru, time = \<lparr>min_t = m, sec = sc, hSec = h\<rparr>\<rparr>"

text \<open>A race in progress: the registry is the list at address 1, the clock runs.\<close>

definition race_state :: "(addr \<rightharpoonup> runner_node) \<Rightarrow> state" where
  "race_state h =
     boot_state\<lparr>heap := h, brk := 10, runnerListHead := 1, addRunner_prev := 1,
                clockRunning := 1, TCCR1B := 11\<rparr>"

text \<open>Runner 5 started at 0:10 and is running; the clock shows 0:45 and the runner signal is set.\<close>

definition finish_state :: state where
  "finish_state =
     (race_state [1 \<mapsto> node (lap 5 1 0 10 0) NULL])
       \<lparr>clock := \<lparr>min_t = 0, sec = 45, hSec = 0\<rparr>, currentRunner := lap 5 1 0 10 0,
        PIND := 16\<rparr>"

text \<open>Two finished runners, with laps of 35 and 20 seconds; the clock signal is set.\<close>

definition stop_state :: state where
  "stop_state =
     (race_state [1 \<mapsto> node (lap 5 0 0 35 0) 2, 2 \<mapsto> node (lap 7 0 0 20 0) NULL])
       \<lparr>PIND := 1\<rparr>"

text \<open>One finished runner, with a lap of 30 seconds.\<close>

definition one_finisher_state :: state where
  "one_finisher_state = race_state [1 \<mapsto> node (lap 3 0 0 30 0) NULL]"

text \<open>Two finished runners with laps of 3 minutes each.\<close>

definition long_laps_state :: state where
  "long_laps_state =
     race_state [1 \<mapsto> node (lap 5 0 3 0 0) 2, 2 \<mapsto> node (lap 7 0 3 0 0) NULL]"

text \<open>Runner 7 is running, runner 3 behind it has finished in 30 seconds.\<close>

definition running_head_state :: state where
  "running_head_state =
     race_state [1 \<mapsto> node (lap 7 1 0 0 0) 2, 2 \<mapsto> node (lap 3 0 0 30 0) NULL]"

section \<open>Properties of the clock\<close>

lemma incClock_sec_le: "sec (incClock c v) \<le> 59"
  by (simp add: incClock_def Let_def inc_le)

lemma ticks_snoc: "ticks c (vs @ [v]) = incClock (ticks c vs) v"
  by (induction vs arbitrary: c) simp_all

lemma ticks_sec_le: "vs \<noteq> [] \<Longrightarrow> sec (ticks c vs) \<le> 59"
  by (induction vs rule: rev_induct) (simp_all add: ticks_snoc incClock_sec_le)

lemma ISR_sec_le: "sec (clock (ISR_TIMER1_COMPA s)) \<le> 59"
  by (simp add: ISR_TIMER1_COMPA_def incClock_sec_le)

text \<open>
  C7: after a tick the seconds are at most 59, whatever the clock held before, and so
  after every non-empty sequence of ticks; a tick below 59 seconds adds one second and
  leaves the minutes, a tick at 59 seconds (or above) sets the seconds to 0 and adds one
  minute.
\<close>

theorem incClock_seconds_range:
  "sec (incClock c v) \<le> 59 \<and>
   (vs \<noteq> [] \<longrightarrow> sec (ticks c vs) \<le> 59) \<and>
   (sec c < 59 \<longrightarrow> sec (incClock c v) = sec c + 1 \<and> min_t (incClock c v) = min_t c) \<and>
   (\<not> sec c < 59 \<longrightarrow> sec (incClock c v) = 0 \<and> min_t (incClock c v) = min_t c + 1)"
  using incClock_sec_le [of c v] ticks_sec_le [of vs c]
  by (simp add: incClock_def Let_def)

theorem incClock_seconds_range_witness:
  "[5, 6 :: 16 word] \<noteq> [] \<and>
   sec \<lparr>min_t = 0, sec = 58, hSec = 0\<rparr> < 59 \<and>
   \<not> sec \<lparr>min_t = 0, sec = 59, hSec = 5\<rparr> < 59 \<and>
   sec (ticks \<lparr>min_t = 0, sec = 58, hSec = 0\<rparr> [5, 6]) \<le> 59 \<and>
   incClock \<lparr>min_t = 0, sec = 58, hSec = 0\<rparr> 5 = \<lparr>min_t = 0, sec = 59, hSec = 5\<rparr> \<and>
   incClock \<lparr>min_t = 0, sec = 59, hSec = 5\<rparr> 6 = \<lparr>min_t = 1, sec = 0, hSec = 6\<rparr>"
  using incClock_seconds_range [of "\<lparr>min_t = 0, sec = 58, hSec = 0\<rparr>" 5 "[5, 6]"]
        incClock_seconds_range [of "\<lparr>min_t = 0, sec = 59, hSec = 5\<rparr>" 6 "[6]"]
  by (simp add: incClock_def)

section \<open>The lap time of a runner\<close>

lemma int_low_byte_diff:
  "((t::int) - h mod 256) mod 65536 mod 256 = (t mod 65536 - h) mod 256"
proof -
  have d: "(256::int) dvd 65536" by simp
  have "(t - h mod 256) mod 65536 mod 256 = (t - h mod 256) mod 256"
    using d by (rule mod_mod_cancel)
  also have "\<dots> = (t - h) mod 256" by (rule mod_diff_right_eq)
  also have "\<dots> = (t mod 256 - h) mod 256" by (rule mod_diff_left_eq [symmetric])
  also have "\<dots> = (t mod 65536 mod 256 - h) mod 256"
    using d by (simp only: mod_mod_cancel)
  also have "\<dots> = (t mod 65536 - h) mod 256" by (rule mod_diff_left_eq)
  finally show ?thesis .
qed

lemma ucast_low_byte_diff:
  "(ucast ((t::16 word) - ucast (h::8 word)) :: 8 word) = ucast t - h"
  by transfer (simp add: take_bit_eq_mod int_low_byte_diff)

text \<open>
  C8: when the runner signal is set, the second block of \<^verbatim>\<open>inputController\<close> is reached
  (the clock signal is set exactly when the clock was not running) and the current runner
  is running, the call returns, and the time of the current runner is the difference of
  the clock and the start time, taken field by field in 8 bits, the sub-second field from
  the low byte of the counter; the runner is no longer running.
\<close>

theorem inputController_lap_time:
  assumes "PIND s AND push_bit 4 1 \<noteq> 0"
      and "(PIND s AND 1 \<noteq> 0) = (clockRunning s = 0)"
      and "running (currentRunner s) \<noteq> 0"
  shows "\<exists>s'. inputController s u = Some (Inr s') \<and>
           currentRunner s' = (currentRunner s)
             \<lparr>time := \<lparr>min_t = min_t (clock s) - min_t (time (currentRunner s)),
                       sec = sec (clock s) - sec (time (currentRunner s)),
                       hSec = ucast (TCNT1 s) - hSec (time (currentRunner s))\<rparr>,
              running := 0\<rparr>"
  using assms
  by (cases "clockRunning s = 0")
     (simp_all add: inputController_def inputController_runner_def startTimer_def
        ucast_low_byte_diff)

theorem inputController_lap_time_witness:
  "PIND finish_state AND push_bit 4 1 \<noteq> 0 \<and>
   (PIND finish_state AND 1 \<noteq> 0) = (clockRunning finish_state = 0) \<and>
   running (currentRunner finish_state) \<noteq> 0 \<and>
   time (currentRunner finish_state) = \<lparr>min_t = 0, sec = 10, hSec = 0\<rparr> \<and>
   clock finish_state = \<lparr>min_t = 0, sec = 45, hSec = 0\<rparr> \<and> TCNT1 finish_state = 0 \<and>
   (\<exists>s'. inputController finish_state \<lparr>min_t = 0, sec = 0, hSec = 0\<rparr> = Some (Inr s') \<and>
         currentRunner s' = \<lparr>id_r = 5, running = 0, time = \<lparr>min_t = 0, sec = 35, hSec = 0\<rparr>\<rparr>)"
  using inputController_lap_time [of finish_state "\<lparr>min_t = 0, sec = 0, hSec = 0\<rparr>"]
  by (simp add: finish_state_def race_state_def boot_state_def lap_def)

text \<open>
  The lap time is written to the static \<^verbatim>\<open>currentRunner\<close> only: the heap, and with it the
  copy of the runner that \<^verbatim>\<open>addRunner\<close> stored in the list at the start, stays as it was.
\<close>

lemma inputController_finish_keeps_heap:
  assumes "PIND s AND push_bit 4 1 \<noteq> 0"
      and "(PIND s AND 1 \<noteq> 0) = (clockRunning s = 0)"
      and "running (currentRunner s) \<noteq> 0"
  shows "\<exists>s'. inputController s u = Some (Inr s') \<and> heap s' = heap s \<and>
           runnerListHead s' = runnerListHead s"
  using assms
  by (cases "clockRunning s = 0")
     (simp_all add: inputController_def inputController_runner_def startTimer_def)

section \<open>The registry after appending\<close>

lemma main_start_boot:
  "main_start boot_state =
     boot_state\<lparr>heap := [1 \<mapsto> zero_node], brk := 2, runnerListHead := 1, TCCR1B := 8\<rparr>"
  by (simp add: main_start_def boot_state_def malloc_def initTimer_def)

text \<open>
  A path of nodes that ends in \<open>NULL\<close> visits no node twice, and a change of the heap
  outside the path leaves it as it is.
\<close>

lemma node_path_unique: "node_path h p as \<Longrightarrow> node_path h p bs \<Longrightarrow> as = bs"
proof (induction as arbitrary: p bs)
  case Nil
  then show ?case by (cases bs) auto
next
  case (Cons a as)
  then show ?case
    by (cases bs) (auto split: option.splits)
qed

lemma node_path_suffix: "node_path h p (xs @ a # ys) \<Longrightarrow> node_path h a (a # ys)"
proof (induction xs arbitrary: p)
  case Nil
  then show ?case by simp
next
  case (Cons x xs)
  from Cons.prems obtain nd where "h x = Some nd" and "node_path h (next nd) (xs @ a # ys)"
    by (auto split: option.splits)
  then show ?case by (intro Cons.IH)
qed

lemma node_path_distinct: "node_path h p as \<Longrightarrow> distinct as"
proof (induction as arbitrary: p)
  case Nil
  then show ?case by simp
next
  case (Cons a as)
  from Cons.prems obtain nd where nd: "h a = Some nd" and rest: "node_path h (next nd) as"
    and pa: "p = a"
    by (auto split: option.splits)
  have "a \<notin> set as"
  proof
    assume "a \<in> set as"
    then obtain xs ys where as: "as = xs @ a # ys" by (auto dest: split_list)
    with rest have "node_path h a (a # ys)" by (auto dest: node_path_suffix)
    moreover have "node_path h a (a # as)" using Cons.prems pa by simp
    ultimately have "a # ys = a # as" by (rule node_path_unique)
    with as show False by simp
  qed
  with Cons.IH [OF rest] show ?case by simp
qed

lemma node_path_frame: "node_path h p as \<Longrightarrow> a \<notin> set as \<Longrightarrow> node_path (h(a \<mapsto> v)) p as"
  by (induction as arbitrary: p) (auto split: option.splits)

lemma node_path_runner_list:
  "node_path h p as \<Longrightarrow> runner_list h p (map (\<lambda>a. runner (the (h a))) as)"
  by (induction as arbitrary: p) (auto split: option.splits)

lemma addRunner_last_path: "node_path h p (as @ [a]) \<Longrightarrow> addRunner_last h p = Some (Inr a)"
proof (induction as arbitrary: p)
  case Nil
  then show ?case
    by (subst addRunner_last.simps) (auto split: option.splits)
next
  case (Cons b as)
  from Cons.prems obtain nd where nd: "h b = Some nd"
    and rest: "node_path h (next nd) (as @ [a])" and pb: "p = b"
    by (auto split: option.splits)
  from rest have "next nd \<noteq> NULL" by (cases as) auto
  then show ?case
    using nd pb Cons.IH [OF rest] by (subst addRunner_last.simps) simp
qed

lemma node_path_set_last:
  "node_path h p (as @ [a]) \<Longrightarrow> a \<notin> set as \<Longrightarrow> h a = Some nd \<Longrightarrow>
   node_path (h(a \<mapsto> nd\<lparr>runner := r, prev := q, next := NULL\<rparr>)) p (as @ [a]) \<and>
   runner_list (h(a \<mapsto> nd\<lparr>runner := r, prev := q, next := NULL\<rparr>)) p
     (map (\<lambda>x. runner (the (h x))) as @ [r])"
proof (induction as arbitrary: p)
  case Nil
  then show ?case by (auto split: option.splits)
next
  case (Cons b as)
  then show ?case by (auto split: option.splits)
qed

text \<open>
  \<^verbatim>\<open>addRunner\<close> on a list of one node or more, when the block that \<^verbatim>\<open>malloc\<close> hands out
  lies beyond the nodes of the list: the call returns the last node of the list, and the
  list has the nodes it had; the last node holds the new runner in place of the runner it
  held, the nodes before it are unchanged.
\<close>

lemma addRunner_overwrites_last:
  assumes path: "node_path (heap s) head (as @ [a])" and fresh: "\<forall>x\<in>set (as @ [a]). x < brk s"
  shows "\<exists>s'. addRunner s head r = Some (Inr (a, s')) \<and>
           node_path (heap s') head (as @ [a]) \<and>
           runner_list (heap s') head (map (\<lambda>x. runner (the (heap s x))) as @ [r]) \<and>
           (\<forall>x\<in>set as. heap s' x = heap s x) \<and>
           brk s' = Suc (brk s) \<and> runnerListHead s' = runnerListHead s"
proof -
  have nb: "brk s \<notin> set (as @ [a])" using fresh by auto
  have d: "a \<notin> set as" using node_path_distinct [OF path] by simp
  define h1 where "h1 = (heap s)(brk s \<mapsto> stale s (brk s))"
  have p1: "node_path h1 head (as @ [a])"
    unfolding h1_def using path nb by (rule node_path_frame)
  obtain nd where nd: "heap s a = Some nd"
    using node_path_suffix [of "heap s" head as a "[]"] path by (auto split: option.splits)
  have nd1: "h1 a = Some nd" using nd nb by (simp add: h1_def)
  have same: "\<forall>x\<in>set as. h1 x = heap s x" using nb by (auto simp: h1_def)
  have "node_path (h1(a \<mapsto> nd\<lparr>runner := r, prev := addRunner_prev s, next := NULL\<rparr>)) head (as @ [a]) \<and>
        runner_list (h1(a \<mapsto> nd\<lparr>runner := r, prev := addRunner_prev s, next := NULL\<rparr>)) head
          (map (\<lambda>x. runner (the (h1 x))) as @ [r])"
    using p1 d nd1 by (rule node_path_set_last)
  moreover have "map (\<lambda>x. runner (the (h1 x))) as = map (\<lambda>x. runner (the (heap s x))) as"
    using same by simp
  moreover have "addRunner s head r =
      Some (Inr (a, s\<lparr>heap := h1(a \<mapsto> nd\<lparr>runner := r, prev := addRunner_prev s, next := NULL\<rparr>),
                       brk := Suc (brk s), addRunner_prev := a\<rparr>))"
    using nd1
    by (simp add: addRunner_def addRunner_last_path [OF path] bindR_def malloc_def h1_def)
  ultimately show ?thesis using same d by auto
qed

text \<open>
  So every non-empty sequence of appends leaves a list of the same length, whose last node
  holds the runner appended last.
\<close>

lemma addRunners_keep_length:
  assumes "node_path (heap s) (runnerListHead s) (as @ [a])"
      and "\<forall>x\<in>set (as @ [a]). x < brk s" and "rs \<noteq> []"
  shows "\<exists>s'. addRunners s rs = Some (Inr s') \<and>
           runner_list (heap s') (runnerListHead s')
             (map (\<lambda>x. runner (the (heap s x))) as @ [last rs])"
  using assms
proof (induction rs arbitrary: s)
  case Nil
  then show ?case by simp
next
  case (Cons r rs)
  obtain s1 where s1: "addRunner s (runnerListHead s) r = Some (Inr (a, s1))"
    "node_path (heap s1) (runnerListHead s) (as @ [a])"
    "runner_list (heap s1) (runnerListHead s) (map (\<lambda>x. runner (the (heap s x))) as @ [r])"
    "\<forall>x\<in>set as. heap s1 x = heap s x"
    "brk s1 = Suc (brk s)" "runnerListHead s1 = runnerListHead s"
    using addRunner_overwrites_last [OF Cons.prems(1,2), of r] by auto
  show ?case
  proof (cases "rs = []")
    case True
    then show ?thesis using s1 by (simp add: bindR_def)
  next
    case False
    have "\<exists>s'. addRunners s1 rs = Some (Inr s') \<and>
           runner_list (heap s') (runnerListHead s')
             (map (\<lambda>x. runner (the (heap s1 x))) as @ [last rs])"
      using s1 Cons.prems(2) False by (intro Cons.IH) auto
    moreover have "map (\<lambda>x. runner (the (heap s1 x))) as = map (\<lambda>x. runner (the (heap s x))) as"
      using s1(4) by simp
    ultimately show ?thesis using s1(1) False by (simp add: bindR_def)
  qed
qed

text \<open>
  C1, evaluated: from the registry that \<^verbatim>\<open>main\<close> sets up, the start of the runner with
  id 1 and then of the runner with id 2 leave a registry of one node that holds the second
  runner; the first runner is no longer in it.
\<close>

theorem addRunners_two_starts:
  "(case addRunners (main_start boot_state) [lap 1 1 0 10 0, lap 2 1 0 20 0] of
      Some (Inr s') \<Rightarrow>
        runner_list (heap s') (runnerListHead s') [lap 2 1 0 20 0] \<and>
        \<not> runner_list (heap s') (runnerListHead s') [lap 1 1 0 10 0, lap 2 1 0 20 0]
    | _ \<Rightarrow> False)"
  unfolding main_start_boot
  by (simp add: addRunner_def addRunner_last.simps malloc_def bindR_def boot_state_def
        zero_node_def lap_def Let_def)

section \<open>Sorting never returns\<close>

text \<open>
  The outer loop of \<^verbatim>\<open>sortedByTime\<close> has no exit: its test \<^verbatim>\<open>i >= 0\<close> holds for every
  value of the unsigned \<^verbatim>\<open>i\<close>. Whatever the loop returns is a fault.
\<close>

lemma sortedByTime_outer_no_exit:
  assumes "sortedByTime_outer i arr = Some y"
  shows "\<exists>e. y = Inl e"
  by (rule sortedByTime_outer.raw_induct [OF _ assms])
     (auto split: option.splits sum.splits if_splits)

lemma sortedByTime_no_return: "sortedByTime s head \<noteq> Some (Inr x)"
proof
  assume "sortedByTime s head = Some (Inr x)"
  then show False
    by (auto simp: sortedByTime_def bindR_def split: option.splits sum.splits
          dest: sortedByTime_outer_no_exit)
qed

text \<open>
  C2, evaluated: on the registry of two finished runners with laps of 35 and 20 seconds
  \<^verbatim>\<open>sortedByTime\<close> returns no list; it runs into an access outside \<^verbatim>\<open>sortingArray\<close>.
\<close>

theorem sortedByTime_stop_state:
  "sortedByTime stop_state (runnerListHead stop_state) = Some (Inl OutOfBounds)"
  by (simp add: sortedByTime_def bindR_def stop_state_def race_state_def boot_state_def
        node_def lap_def sortedByTime_count.simps sortedByTime_copy.simps
        freeRunnerList.simps sortedByTime_outer.simps sortedByTime_inner.simps
        arr_get_def getTimeInSec_def word_le_nat_alt)

section \<open>The average lap time on a list\<close>

text \<open>
  On a well-formed list the loop of \<^verbatim>\<open>averageLapTime\<close> ends; it counts the finished runners
  and adds up their three fields, each sum in 8 bits.
\<close>

lemma averageLapTime_loop_list:
  "runner_list h p rs \<Longrightarrow>
   averageLapTime_loop h p n t =
     Some (Inr (n + of_nat (length (finished rs)),
                \<lparr>min_t = min_t t + of_nat (sum_list (map (\<lambda>r. unat (min_t (time r))) (finished rs))),
                 sec = sec t + of_nat (sum_list (map (\<lambda>r. unat (sec (time r))) (finished rs))),
                 hSec = hSec t + of_nat (sum_list (map (\<lambda>r. unat (hSec (time r))) (finished rs)))\<rparr>))"
proof (induction rs arbitrary: p n t)
  case Nil
  then show ?case
    by (subst averageLapTime_loop.simps) (simp add: finished_def)
next
  case (Cons r rs)
  then obtain nd where p: "p \<noteq> NULL" and nd: "h p = Some nd" and r: "runner nd = r"
    and rest: "runner_list h (next nd) rs"
    by (auto split: option.splits)
  show ?case
  proof (cases "running r = 0")
    case True
    then show ?thesis
      using p nd r Cons.IH [OF rest]
      by (subst averageLapTime_loop.simps)
         (simp add: finished_def add.assoc)
  next
    case False
    then show ?thesis
      using p nd r Cons.IH [OF rest]
      by (subst averageLapTime_loop.simps) (simp add: finished_def)
  qed
qed

lemma averageLapTime_few_finishers:
  assumes "runner_list (heap s) (runnerListHead s) rs" and "length (finished rs) \<le> 1"
  shows "averageLapTime s u = Some (Inr u)"
proof -
  have "(of_nat (length (finished rs)) :: 8 word) \<le> 1"
    using assms(2) by (cases "length (finished rs)") simp_all
  then have "\<not> (1 :: 8 word) < of_nat (length (finished rs))"
    by simp
  then show ?thesis
    by (simp add: averageLapTime_def averageLapTime_loop_list [OF assms(1)] bindR_def)
qed

lemma sum_lap_seconds:
  "sum_list (map lap_seconds rs) =
     sum_list (map (\<lambda>r. unat (min_t (time r))) rs) * 60 + sum_list (map (\<lambda>r. unat (sec (time r))) rs)"
  by (induction rs) (simp_all add: lap_seconds_def)

lemma sub_seconds_fun: "sub_seconds = (\<lambda>r. unat (hSec (time r)))"
  by (simp add: fun_eq_iff sub_seconds_def)

text \<open>
  C3, evaluated: with one finished runner in the registry, and with none (the only runner
  is still running), \<^verbatim>\<open>averageLapTime\<close> returns whatever its local \<^verbatim>\<open>averageTime\<close> held at
  its declaration, here \<open>{1, 2, 3}\<close>, not the zero timestamp. The lemma
  \<open>averageLapTime_few_finishers\<close> above says so for every registry.
\<close>

theorem averageLapTime_uninitialised:
  "averageLapTime one_finisher_state \<lparr>min_t = 1, sec = 2, hSec = 3\<rparr> =
     Some (Inr \<lparr>min_t = 1, sec = 2, hSec = 3\<rparr>) \<and>
   averageLapTime finish_state \<lparr>min_t = 1, sec = 2, hSec = 3\<rparr> =
     Some (Inr \<lparr>min_t = 1, sec = 2, hSec = 3\<rparr>)"
  by (simp add: averageLapTime_def averageLapTime_loop.simps bindR_def one_finisher_state_def
        finish_state_def race_state_def boot_state_def node_def lap_def)

text \<open>
  Within the range of 8 bits the function computes the average: for a registry with at
  least 2 and at most 255 finished runners whose lap seconds sum to at most 255, the
  result holds the truncated average of the lap seconds of the finished runners,
  decomposed into minutes and seconds; when their sub-second fields sum to at most 255 as
  well, its sub-second field is their truncated average. Running runners do not count.
\<close>

lemma averageLapTime_within_8_bits:
  assumes rl: "runner_list (heap s) (runnerListHead s) rs"
      and n2: "2 \<le> length (finished rs)" and n255: "length (finished rs) \<le> 255"
      and sm: "sum_list (map lap_seconds (finished rs)) \<le> 255"
  shows "\<exists>t. averageLapTime s u = Some (Inr t) \<and>
           unat (min_t t) = fst (spec_average rs) \<and>
           unat (sec t) = fst (snd (spec_average rs)) \<and>
           (sum_list (map sub_seconds (finished rs)) \<le> 255 \<longrightarrow>
              unat (hSec t) = snd (snd (spec_average rs)))"
proof -
  define fin where "fin = finished rs"
  define N where "N = length fin"
  define M where "M = sum_list (map (\<lambda>r. unat (min_t (time r))) fin)"
  define S where "S = sum_list (map (\<lambda>r. unat (sec (time r))) fin)"
  define H where "H = sum_list (map (\<lambda>r. unat (hSec (time r))) fin)"
  have tot: "sum_list (map lap_seconds fin) = M * 60 + S"
    by (simp add: sum_lap_seconds M_def S_def)
  have hs: "sum_list (map sub_seconds fin) = H"
    by (simp add: H_def sub_seconds_fun)
  have bounds: "M * 60 + S \<le> 255" "2 \<le> N" "N \<le> 255"
    using sm n2 n255 tot by (simp_all add: fin_def N_def)
  have uN: "unat (of_nat N :: 8 word) = N" using bounds by (simp add: unat_of_nat)
  have gt: "(1 :: 8 word) < of_nat N"
    using bounds uN by (simp add: word_less_nat_alt)
  define tempSec where
    "tempSec =
       (word_of_int (uint (of_nat M :: 8 word) * 60 + uint (of_nat S :: 8 word)) :: 8 word)"
  have "tempSec = of_nat (M * 60 + S)"
    by (simp add: tempSec_def)
  then have "unat tempSec = (M * 60 + S) mod 2 ^ LENGTH(8)"
    by (simp only: unat_of_nat)
  then have uT: "unat tempSec = M * 60 + S"
    using bounds by simp
  have loop:
    "averageLapTime_loop (heap s) (runnerListHead s) 0 \<lparr>min_t = 0, sec = 0, hSec = 0\<rparr> =
       Some (Inr (of_nat N, \<lparr>min_t = of_nat M, sec = of_nat S, hSec = of_nat H\<rparr>))"
    by (simp add: averageLapTime_loop_list [OF rl] N_def M_def S_def H_def fin_def)
  let ?t = "u\<lparr>min_t := tempSec div of_nat N div 60, sec := tempSec div of_nat N mod 60,
              hSec := of_nat H div of_nat N\<rparr>"
  have res: "averageLapTime s u = Some (Inr ?t)"
    using gt by (simp add: averageLapTime_def loop bindR_def Let_def tempSec_def)
  have av: "spec_average rs =
      ((M * 60 + S) div N div 60, (M * 60 + S) div N mod 60, H div N)"
    using tot hs by (simp add: spec_average_def Let_def fin_def [symmetric] N_def [symmetric])
  have "unat (min_t ?t) = fst (spec_average rs)"
    by (simp add: av unat_div uT uN)
  moreover have "unat (sec ?t) = fst (snd (spec_average rs))"
    by (simp add: av unat_div unat_mod uT uN)
  moreover have "unat (hSec ?t) = snd (snd (spec_average rs))" if "H \<le> 255"
  proof -
    have "unat (of_nat H :: 8 word) = H" using that by (simp add: unat_of_nat)
    then show ?thesis by (simp add: av unat_div uN)
  qed
  ultimately show ?thesis using res hs by (auto simp: fin_def)
qed

text \<open>
  C4, evaluated: for two finished runners with laps of 3 minutes each, the average in the
  words of the specification is \<open>{3, 0, 0}\<close>, and \<^verbatim>\<open>averageLapTime\<close> returns \<open>{0, 52, 0}\<close>:
  the 8-bit \<^verbatim>\<open>tempSec\<close> keeps the low byte of 360, which is 104.
\<close>

theorem averageLapTime_long_laps:
  "runner_list (heap long_laps_state) (runnerListHead long_laps_state)
     [lap 5 0 3 0 0, lap 7 0 3 0 0] \<and>
   length (finished [lap 5 0 3 0 0, lap 7 0 3 0 0]) = 2 \<and>
   spec_average [lap 5 0 3 0 0, lap 7 0 3 0 0] = (3, 0, 0) \<and>
   averageLapTime long_laps_state \<lparr>min_t = 0, sec = 0, hSec = 0\<rparr> =
     Some (Inr \<lparr>min_t = 0, sec = 52, hSec = 0\<rparr>)"
proof -
  have n: "length (finished [lap 5 0 3 0 0, lap 7 0 3 0 0]) = 2"
    by (simp add: finished_def lap_def)
  have "spec_average [lap 5 0 3 0 0, lap 7 0 3 0 0] = (3, 0, 0)"
    unfolding spec_average_def Let_def n
    by (simp add: finished_def lap_def lap_seconds_def sub_seconds_def)
  moreover have "runner_list (heap long_laps_state) (runnerListHead long_laps_state)
     [lap 5 0 3 0 0, lap 7 0 3 0 0]"
    by (simp add: long_laps_state_def race_state_def boot_state_def node_def)
  moreover have "averageLapTime long_laps_state \<lparr>min_t = 0, sec = 0, hSec = 0\<rparr> =
     Some (Inr \<lparr>min_t = 0, sec = 52, hSec = 0\<rparr>)"
    by (simp add: averageLapTime_def averageLapTime_loop.simps bindR_def long_laps_state_def
        race_state_def boot_state_def node_def lap_def Let_def)
  ultimately show ?thesis using n by simp
qed

section \<open>The key of ranking and reporting\<close>

lemma getTimeInSec_unat: "unat (getTimeInSec r) = lap_seconds r mod 256"
proof -
  have "getTimeInSec r = word_of_nat (lap_seconds r)"
    by (simp add: getTimeInSec_def lap_seconds_def)
  then show ?thesis by (simp only: unat_of_nat) simp
qed

lemma getTimeInSec_less:
  "getTimeInSec a < getTimeInSec b \<longleftrightarrow> lap_seconds a mod 256 < lap_seconds b mod 256"
  by (simp add: word_less_nat_alt getTimeInSec_unat)

lemma getTimeInSec_eq:
  "getTimeInSec a = getTimeInSec b \<longleftrightarrow> lap_seconds a mod 256 = lap_seconds b mod 256"
  by (simp add: word_unat_eq_iff getTimeInSec_unat)

lemma sortedByTime_inner_pair:
  "sortedByTime_inner 1 1 [a, b] =
     Some (Inr (if lap_seconds b mod 256 < lap_seconds a mod 256 then [b, a] else [a, b]))"
  by (simp add: sortedByTime_inner.simps arr_get_def getTimeInSec_less Let_def word_le_nat_alt)

lemma outputBest_loop_pair:
  assumes "running a = 0" and "running b = 0" and "runner_list h p [a, b]"
  shows "outputBest_loop h p (id_r a) (getTimeInSec a) =
           Some (Inr (if lap_seconds b mod 256 < lap_seconds a mod 256 then id_r b else id_r a))"
proof -
  from assms(3) obtain na nb where
    "p \<noteq> NULL" "h p = Some na" "runner na = a" "next na \<noteq> NULL"
    "h (next na) = Some nb" "runner nb = b" "next nb = NULL"
    by (auto split: option.splits)
  then show ?thesis
    using assms(1,2)
    by (simp add: outputBest_loop.simps getTimeInSec_less Let_def)
qed

text \<open>
  C10: the key \<^verbatim>\<open>getTimeInSec\<close> is the lap time in seconds modulo 256, so two runners whose
  lap seconds agree modulo 256 have the same key. The sort compares these keys: a pass
  over two adjacent runners swaps them exactly when the residue of the second is below
  the residue of the first. The report compares these keys: of two finished runners it
  keeps the second exactly when its residue is below the residue of the first.
\<close>

theorem getTimeInSec_mod_256:
  "unat (getTimeInSec a) = lap_seconds a mod 256 \<and>
   (lap_seconds a mod 256 = lap_seconds b mod 256 \<longrightarrow> getTimeInSec a = getTimeInSec b) \<and>
   sortedByTime_inner 1 1 [a, b] =
     Some (Inr (if lap_seconds b mod 256 < lap_seconds a mod 256 then [b, a] else [a, b])) \<and>
   (running a = 0 \<and> running b = 0 \<and> runner_list h p [a, b] \<longrightarrow>
      outputBest_loop h p (id_r a) (getTimeInSec a) =
        Some (Inr (if lap_seconds b mod 256 < lap_seconds a mod 256 then id_r b else id_r a)))"
  by (simp add: getTimeInSec_unat getTimeInSec_eq sortedByTime_inner_pair outputBest_loop_pair)

theorem getTimeInSec_mod_256_witness:
  "lap_seconds (lap 1 0 4 26 0) = 266 \<and> lap_seconds (lap 2 0 0 10 0) = 10 \<and>
   lap_seconds (lap 1 0 4 26 0) mod 256 = lap_seconds (lap 2 0 0 10 0) mod 256 \<and>
   getTimeInSec (lap 1 0 4 26 0) = getTimeInSec (lap 2 0 0 10 0) \<and>
   lap_seconds (lap 1 0 4 20 0) = 260 \<and> getTimeInSec (lap 1 0 4 20 0) = 4 \<and>
   sortedByTime_inner 1 1 [lap 2 0 0 10 0, lap 1 0 4 20 0] =
     Some (Inr [lap 1 0 4 20 0, lap 2 0 0 10 0]) \<and>
   running (lap 2 0 0 10 0) = 0 \<and> running (lap 1 0 4 20 0) = 0 \<and>
   runner_list [1 \<mapsto> node (lap 2 0 0 10 0) 2, 2 \<mapsto> node (lap 1 0 4 20 0) NULL] 1
     [lap 2 0 0 10 0, lap 1 0 4 20 0] \<and>
   outputBest_loop [1 \<mapsto> node (lap 2 0 0 10 0) 2, 2 \<mapsto> node (lap 1 0 4 20 0) NULL] 1
     (id_r (lap 2 0 0 10 0)) (getTimeInSec (lap 2 0 0 10 0)) = Some (Inr 1)"
  using getTimeInSec_mod_256 [of "lap 1 0 4 26 0" "lap 2 0 0 10 0" Map.empty 0]
        getTimeInSec_mod_256 [of "lap 2 0 0 10 0" "lap 1 0 4 20 0"
          "[1 \<mapsto> node (lap 2 0 0 10 0) 2, 2 \<mapsto> node (lap 1 0 4 20 0) NULL]" 1]
  by (simp add: lap_seconds_def lap_def node_def getTimeInSec_def)

section \<open>Stopping the race\<close>

text \<open>
  When the clock signal is set and the clock is running, \<^verbatim>\<open>inputController\<close> calls
  \<^verbatim>\<open>sortedByTime\<close>, which does not return: neither does the controller.
\<close>

lemma inputController_stop_no_return:
  assumes "PIND s AND 1 \<noteq> 0" and "clockRunning s \<noteq> 0"
  shows "inputController s u \<noteq> Some (Inr s')"
  using assms sortedByTime_no_return
  by (auto simp: inputController_def bindR_def Let_def split: option.splits sum.splits)

text \<open>
  C5, evaluated: with the clock running, the clock signal set and two finished runners in
  the registry, \<^verbatim>\<open>inputController\<close> does not come back with a ranked registry; it ends in
  the access outside \<^verbatim>\<open>sortingArray\<close>.
\<close>

theorem inputController_stop_state:
  "PIND stop_state AND 1 \<noteq> 0 \<and> clockRunning stop_state \<noteq> 0 \<and>
   inputController stop_state \<lparr>min_t = 0, sec = 0, hSec = 0\<rparr> = Some (Inl OutOfBounds)"
  by (simp add: inputController_def stopTimer_def averageLapTime_def averageLapTime_loop.simps
        sortedByTime_def bindR_def stop_state_def race_state_def boot_state_def
        node_def lap_def sortedByTime_count.simps sortedByTime_copy.simps
        freeRunnerList.simps sortedByTime_outer.simps sortedByTime_inner.simps
        arr_get_def getTimeInSec_def Let_def word_le_nat_alt)

section \<open>The reported runner\<close>

text \<open>
  What the loop of \<^verbatim>\<open>outputBest\<close> computes on a well-formed list when it starts from a
  finished runner \<open>b\<close> that is minimal among the runners \<open>seen\<close>: the id of a runner that
  is minimal, in the 8-bit key, among \<open>seen\<close> and the finished runners before the first
  running one.
\<close>

lemma outputBest_loop_min:
  assumes "runner_list h p rs"
      and "b \<in> set seen" and "\<forall>y\<in>set seen. running y = 0"
      and "\<forall>y\<in>set seen. getTimeInSec b \<le> getTimeInSec y"
  shows "\<exists>x. outputBest_loop h p (id_r b) (getTimeInSec b) = Some (Inr (id_r x)) \<and>
             x \<in> set seen \<union> set (takeWhile (\<lambda>r. running r = 0) rs) \<and>
             (\<forall>y \<in> set seen \<union> set (takeWhile (\<lambda>r. running r = 0) rs).
                 getTimeInSec x \<le> getTimeInSec y)"
  using assms
proof (induction rs arbitrary: p b seen)
  case Nil
  then show ?case
    by (subst outputBest_loop.simps) auto
next
  case (Cons r rs)
  then obtain nd where p: "p \<noteq> NULL" and nd: "h p = Some nd" and r: "runner nd = r"
    and rest: "runner_list h (next nd) rs"
    by (auto split: option.splits)
  show ?case
  proof (cases "running r = 0")
    case False
    then show ?thesis
      using p nd r Cons.prems(2,4)
      by (subst outputBest_loop.simps) auto
  next
    case fin: True
    show ?thesis
    proof (cases "getTimeInSec r < getTimeInSec b")
      case True
      have "\<exists>x. outputBest_loop h (next nd) (id_r r) (getTimeInSec r) = Some (Inr (id_r x)) \<and>
             x \<in> set (r # seen) \<union> set (takeWhile (\<lambda>r. running r = 0) rs) \<and>
             (\<forall>y \<in> set (r # seen) \<union> set (takeWhile (\<lambda>r. running r = 0) rs).
                 getTimeInSec x \<le> getTimeInSec y)"
        using Cons.prems(3,4) True fin
        by (intro Cons.IH [OF rest]) (auto intro: order_trans less_imp_le)
      then show ?thesis
        using p nd r fin True
        by (subst outputBest_loop.simps) (auto simp: Let_def)
    next
      case False
      have "\<exists>x. outputBest_loop h (next nd) (id_r b) (getTimeInSec b) = Some (Inr (id_r x)) \<and>
             x \<in> set (r # seen) \<union> set (takeWhile (\<lambda>r. running r = 0) rs) \<and>
             (\<forall>y \<in> set (r # seen) \<union> set (takeWhile (\<lambda>r. running r = 0) rs).
                 getTimeInSec x \<le> getTimeInSec y)"
        using Cons.prems(2,3,4) False fin
        by (intro Cons.IH [OF rest]) auto
      then show ?thesis
        using p nd r fin False
        by (subst outputBest_loop.simps) (auto simp: Let_def)
    qed
  qed
qed

text \<open>
  When the first runner of the registry has finished, \<^verbatim>\<open>outputBest\<close> writes to \<^verbatim>\<open>PORTA\<close>
  the id of a finished runner whose key is minimal among the finished runners before the
  first running one.
\<close>

lemma outputBest_finished_head:
  assumes "runner_list (heap s) (runnerListHead s) (r # rs)" and "running r = 0"
  shows "\<exists>x. outputBest s = Some (Inr (s\<lparr>PORTA := id_r x\<rparr>)) \<and>
             x \<in> set (takeWhile (\<lambda>r. running r = 0) (r # rs)) \<and> running x = 0 \<and>
             (\<forall>y \<in> set (takeWhile (\<lambda>r. running r = 0) (r # rs)).
                 getTimeInSec x \<le> getTimeInSec y)"
proof -
  from assms(1) obtain nd where p: "runnerListHead s \<noteq> NULL"
    and nd: "heap s (runnerListHead s) = Some nd" and r: "runner nd = r"
    by (auto split: option.splits)
  obtain x where x: "outputBest_loop (heap s) (runnerListHead s) (id_r r) (getTimeInSec r) =
      Some (Inr (id_r x))"
    "x \<in> set [r] \<union> set (takeWhile (\<lambda>r. running r = 0) (r # rs))"
    "\<forall>y \<in> set [r] \<union> set (takeWhile (\<lambda>r. running r = 0) (r # rs)).
                 getTimeInSec x \<le> getTimeInSec y"
    using outputBest_loop_min [OF assms(1), of r "[r]"] assms(2) by auto
  have "running x = 0"
    using x(2) assms(2) by (auto dest: set_takeWhileD)
  moreover have "outputBest s = Some (Inr (s\<lparr>PORTA := id_r x\<rparr>))"
    using p nd r x(1) by (simp add: outputBest_def bindR_def Let_def)
  ultimately show ?thesis using x(2,3) assms(2) by auto
qed

text \<open>
  C6, evaluated: the registry holds the running runner 7 followed by the finished runner
  3; \<^verbatim>\<open>outputBest\<close> writes 7, the id of the running runner, to \<^verbatim>\<open>PORTA\<close>: the
  best id is set from the first node before the loop tests whether that runner is running.
\<close>

theorem outputBest_running_head:
  "runner_list (heap running_head_state) (runnerListHead running_head_state)
     [lap 7 1 0 0 0, lap 3 0 0 30 0] \<and>
   outputBest running_head_state = Some (Inr (running_head_state\<lparr>PORTA := 7\<rparr>))"
  by (simp add: outputBest_def outputBest_loop.simps bindR_def running_head_state_def
        race_state_def boot_state_def node_def lap_def getTimeInSec_def Let_def)

end
